theory Spec2Isabelle
  imports Main "HOL-Library.Sublist" "HOL-Library.Char_ord" "HOL-Library.List_Lexorder"
    "HOL-Library.Product_Lexorder" "HOL-Library.Multiset"
begin

section \<open>Python string operations used by the scripts\<close>

text \<open>
  Strings are \<^typ>\<open>string\<close> (lists of characters). The operations below are the ones of
  Python's \<^verbatim>\<open>str\<close> that \<^verbatim>\<open>convert_project.py\<close> and \<^verbatim>\<open>eclipse_jinto_setup.py\<close> call.
\<close>

definition NL :: char where
  "NL = CHR 0x0A"

definition CR :: char where
  "CR = CHR 0x0D"

definition DQ :: char where
  "DQ = CHR 0x22"

definition BSL :: char where
  "BSL = CHR 0x5C"

text \<open>\<^verbatim>\<open>str.isspace\<close>, a character being a code point below 256.\<close>

definition isspace :: "char \<Rightarrow> bool" where
  "isspace c = (c \<in> set [CHR '' '', CHR 0x09, CHR 0x0A, CHR 0x0B, CHR 0x0C, CHR 0x0D,
     CHR 0x1C, CHR 0x1D, CHR 0x1E, CHR 0x1F, CHR 0x85, CHR 0xA0])"

text \<open>\<^verbatim>\<open>s.strip()\<close>\<close>

definition strip :: "string \<Rightarrow> string" where
  "strip s = rev (dropWhile isspace (rev (dropWhile isspace s)))"

text \<open>\<^verbatim>\<open>s.startswith(p)\<close>\<close>

definition startswith :: "string \<Rightarrow> string \<Rightarrow> bool" where
  "startswith s p = (take (length p) s = p)"

text \<open>The same test, character by character, for evaluation.\<close>

lemma startswith_code [code]:
  "startswith s [] = True"
  "startswith [] (p # ps) = False"
  "startswith (c # cs) (p # ps) = (c = p \<and> startswith cs ps)"
  by (auto simp: startswith_def)

text \<open>\<^verbatim>\<open>s.find(sub)\<close>: the lowest index where \<open>sub\<close> occurs, \<open>None\<close> for Python's -1.\<close>

fun str_find :: "string \<Rightarrow> string \<Rightarrow> nat option" where
  "str_find [] sub = (if sub = [] then Some 0 else None)"
| "str_find (c # cs) sub =
     (if startswith (c # cs) sub then Some 0 else map_option Suc (str_find cs sub))"

text \<open>\<^verbatim>\<open>s.rfind(sub)\<close>: the highest index where \<open>sub\<close> occurs.\<close>

fun str_rfind :: "string \<Rightarrow> string \<Rightarrow> nat option" where
  "str_rfind [] sub = (if sub = [] then Some 0 else None)"
| "str_rfind (c # cs) sub =
     (case str_rfind cs sub of
        Some i \<Rightarrow> Some (Suc i)
      | None \<Rightarrow> if startswith (c # cs) sub then Some 0 else None)"

text \<open>\<^verbatim>\<open>sub in s\<close>\<close>

definition contains :: "string \<Rightarrow> string \<Rightarrow> bool" where
  "contains s sub = (str_find s sub \<noteq> None)"

text \<open>
  \<^verbatim>\<open>s.replace(old, new)\<close>: every non-overlapping occurrence of \<open>old\<close>, scanning from the
  left. With an empty \<open>old\<close> Python inserts \<open>new\<close> before every character and at the end.
\<close>

function replace_str :: "string \<Rightarrow> string \<Rightarrow> string \<Rightarrow> string" where
  "replace_str s old new =
     (if old = [] then new @ concat (map (\<lambda>c. c # new) s)
      else case s of
        [] \<Rightarrow> []
      | c # cs \<Rightarrow>
          if startswith s old then new @ replace_str (drop (length old) s) old new
          else c # replace_str cs old new)"
  by pat_completeness auto
termination
  by (relation "measure (\<lambda>(s, old, new). length s)") auto

declare replace_str.simps [simp del]

text \<open>\<^verbatim>\<open>s.split(d)\<close> for a one-character separator: always at least one piece.\<close>

fun split_on :: "char \<Rightarrow> string \<Rightarrow> string list" where
  "split_on d [] = [[]]"
| "split_on d (c # cs) =
     (if c = d then [] # split_on d cs
      else case split_on d cs of [] \<Rightarrow> [[c]] | piece # pieces \<Rightarrow> (c # piece) # pieces)"

text \<open>\<^verbatim>\<open>sep.join(xs)\<close>\<close>

fun join :: "string \<Rightarrow> string list \<Rightarrow> string" where
  "join sep [] = []"
| "join sep [x] = x"
| "join sep (x # y # ys) = x @ sep @ join sep (y # ys)"

text \<open>\<^verbatim>\<open>s.split()\<close>: the maximal runs of non-whitespace characters.\<close>

fun split_ws_aux :: "string \<Rightarrow> string \<Rightarrow> string list" where
  "split_ws_aux cur [] = (if cur = [] then [] else [cur])"
| "split_ws_aux cur (c # cs) =
     (if isspace c then (if cur = [] then split_ws_aux [] cs else cur # split_ws_aux [] cs)
      else split_ws_aux (cur @ [c]) cs)"

definition split_ws :: "string \<Rightarrow> string list" where
  "split_ws s = split_ws_aux [] s"

section \<open>The fragment of Python's regular expressions that the scripts use\<close>

text \<open>
  Every pattern the scripts compile is a sequence of literal characters, negated character
  classes \<^verbatim>\<open>[^...]\<close> and \<^verbatim>\<open>.*\<close>, with an optional leading \<^verbatim>\<open>^\<close>. A negated class matches any
  character not listed (a newline too); \<^verbatim>\<open>.\<close> matches any character but a newline.
\<close>

datatype rx = Chr char | NotOf "char list" | DotStar

text \<open>\<open>Regex anchored items\<close>: \<open>anchored\<close> stands for a leading \<^verbatim>\<open>^\<close> (no \<^verbatim>\<open>MULTILINE\<close> flag).\<close>

datatype regex = Regex bool "rx list"

text \<open>
  The length of the match the backtracking matcher finds at the start of the string:
  \<^verbatim>\<open>.*\<close> is greedy, taking as many characters as the rest of the pattern allows.
\<close>

fun match_here :: "rx list \<Rightarrow> string \<Rightarrow> nat option" where
  "match_here [] s = Some 0"
| "match_here (Chr c # r) [] = None"
| "match_here (Chr c # r) (x # xs) = (if x = c then map_option Suc (match_here r xs) else None)"
| "match_here (NotOf cs # r) [] = None"
| "match_here (NotOf cs # r) (x # xs) =
     (if x \<in> set cs then None else map_option Suc (match_here r xs))"
| "match_here (DotStar # r) [] = match_here r []"
| "match_here (DotStar # r) (x # xs) =
     (if x = NL then match_here r (x # xs)
      else case match_here (DotStar # r) xs of
             Some n \<Rightarrow> Some (Suc n)
           | None \<Rightarrow> match_here r (x # xs))"

text \<open>The leftmost start position from \<open>i\<close> on; \<open>s\<close> is the string from position \<open>i\<close>.\<close>

fun scan :: "rx list \<Rightarrow> string \<Rightarrow> nat \<Rightarrow> (nat \<times> nat) option" where
  "scan r [] i = (case match_here r [] of Some n \<Rightarrow> Some (i, i + n) | None \<Rightarrow> None)"
| "scan r (x # xs) i =
     (case match_here r (x # xs) of Some n \<Rightarrow> Some (i, i + n) | None \<Rightarrow> scan r xs (Suc i))"

text \<open>
  \<^verbatim>\<open>pattern.search(string, pos)\<close>: \<open>Some (start, end)\<close> of the match, or \<open>None\<close>. A pattern
  with \<^verbatim>\<open>^\<close> matches at the real beginning of the string only, whatever \<open>pos\<close> is.
\<close>

fun re_search :: "regex \<Rightarrow> string \<Rightarrow> nat \<Rightarrow> (nat \<times> nat) option" where
  "re_search (Regex anchored r) s pos =
     (if length s < pos then None
      else if anchored then
        (if pos = 0 then map_option (\<lambda>n. (0, n)) (match_here r s) else None)
      else scan r (drop pos s) pos)"

text \<open>A literal string as a pattern: one \<open>Chr\<close> per character.\<close>

definition lit :: "string \<Rightarrow> rx list" where
  "lit s = map Chr s"

text \<open>
  The characters that are special in a pattern. The scripts splice package, class and variable
  names into their patterns, escaping the dots of the import strings and the star only. The
  model reads every spliced name as the literal it is meant to be, which is what Python
  does for a name without special characters.
\<close>

definition metachars :: "char list" where
  "metachars = [CHR ''.'', CHR ''^'', CHR ''$'', CHR ''*'', CHR ''+'', CHR ''?'', CHR ''{'',
     CHR ''}'', CHR ''['', CHR '']'', CHR 0x5C, CHR ''|'', CHR ''('', CHR '')'']"

definition regex_plain :: "string \<Rightarrow> bool" where
  "regex_plain s = list_all (\<lambda>c. \<not> List.member metachars c) s"

section \<open>Pattern extractor\<close>

text \<open>The exceptions the scripts can raise.\<close>

datatype py_error = ValueError | IndexError | KeyError | NameError | FileNotFoundError

text \<open>A file system: the content of every file that exists, by path.\<close>

type_synonym filesystem = "string \<rightharpoonup> string"

text \<open>
  Iterating over a file opened with \<^verbatim>\<open>newline=""\<close> (\<^verbatim>\<open>open_no_nl\<close>): a line ends at
  a line feed, at a carriage return or at the two together, and keeps its ending untranslated.
\<close>

fun file_lines_aux :: "string \<Rightarrow> string \<Rightarrow> string list" where
  "file_lines_aux cur [] = (if cur = [] then [] else [cur])"
| "file_lines_aux cur (c # cs) =
     (if c = NL then (cur @ [c]) # file_lines_aux [] cs
      else if c = CR then
        (case cs of
           [] \<Rightarrow> [cur @ [c]]
         | d # ds \<Rightarrow>
             if d = NL then (cur @ [c, d]) # file_lines_aux [] ds
             else (cur @ [c]) # file_lines_aux [] cs)
      else file_lines_aux (cur @ [c]) cs)"

definition file_lines :: "string \<Rightarrow> string list" where
  "file_lines content = file_lines_aux [] content"

text \<open>The pattern \<^verbatim>\<open>"public.*static.*String"\<close>.\<close>

definition public_static_String :: regex where
  "public_static_String =
     Regex False (lit ''public'' @ [DotStar] @ lit ''static'' @ [DotStar] @ lit ''String'')"

text \<open>The body of \<^verbatim>\<open>NLS_variable_lines\<close> on the content of the file.\<close>

definition NLS_variable_lines_content :: "string \<Rightarrow> string list" where
  "NLS_variable_lines_content content =
     filter (\<lambda>i. re_search public_static_String i 0 \<noteq> None \<and> CHR ''('' \<notin> set i)
       (file_lines content)"




text \<open>\<^verbatim>\<open>os.path.basename\<close> and \<^verbatim>\<open>os.path.splitext\<close> (POSIX).\<close>

definition basename :: "string \<Rightarrow> string" where
  "basename p = (case str_rfind p ''/'' of None \<Rightarrow> p | Some i \<Rightarrow> drop (i + 1) p)"

definition splitext :: "string \<Rightarrow> string \<times> string" where
  "splitext p =
     (let name_start = (case str_rfind p ''/'' of None \<Rightarrow> 0 | Some i \<Rightarrow> i + 1)
      in case str_rfind p ''.'' of
           None \<Rightarrow> (p, [])
         | Some dot \<Rightarrow>
             if name_start \<le> dot
                \<and> list_ex (\<lambda>c. c \<noteq> CHR ''.'') (take (dot - name_start) (drop name_start p))
             then (take dot p, drop dot p)
             else (p, []))"

definition filepath_to_classname :: "string \<Rightarrow> string" where
  "filepath_to_classname filepath = fst (splitext (basename filepath))"

text \<open>
  The \<^verbatim>\<open>for ... else\<close> of \<^verbatim>\<open>line_to_variable\<close>: the element after the first \<^verbatim>\<open>"String"\<close>;
  \<^verbatim>\<open>elements[i+1]\<close> raises \<^verbatim>\<open>IndexError\<close> when \<^verbatim>\<open>"String"\<close> is the last element.
\<close>

fun element_after_String :: "string list \<Rightarrow> py_error + string" where
  "element_after_String [] = Inl ValueError"
| "element_after_String (elem # rest) =
     (if elem = ''String''
      then (case rest of [] \<Rightarrow> Inl IndexError | variable # _ \<Rightarrow> Inr variable)
      else element_after_String rest)"

definition line_to_variable :: "string \<Rightarrow> py_error + string" where
  "line_to_variable line =
     (case element_after_String (split_ws line) of
        Inl e \<Rightarrow> Inl e
      | Inr variable \<Rightarrow> Inr (replace_str variable '';'' []))"

section \<open>Replacement-rule builder\<close>

text \<open>A rule is the tuple \<^verbatim>\<open>(FROM, TO, classname, variablename, package)\<close>.\<close>

type_synonym rule = "string \<times> string \<times> string \<times> string \<times> string"

text \<open>
  The rules whose names, spliced into the patterns of the rewrite engine, stand for
  themselves: no special character in the variable name, none but the dots (which the engine
  escapes) in \<open>FROM\<close>, the class name and the package.
\<close>

definition rule_plain :: "rule \<Rightarrow> bool" where
  "rule_plain x =
     (case x of (FROM, TO, classname, variablename, package) \<Rightarrow>
        regex_plain variablename
        \<and> regex_plain (filter (\<lambda>c. c \<noteq> CHR ''.'') FROM)
        \<and> regex_plain (filter (\<lambda>c. c \<noteq> CHR ''.'') classname)
        \<and> regex_plain (filter (\<lambda>c. c \<noteq> CHR ''.'') package))"

definition TEMPLATE_MESSAGE_VARIABLE :: "string \<Rightarrow> string \<Rightarrow> string" where
  "TEMPLATE_MESSAGE_VARIABLE classname variablename = classname @ ''.'' @ variablename"

definition TEMPLATE_MESSAGE_TOSTRING :: "string \<Rightarrow> string \<Rightarrow> string" where
  "TEMPLATE_MESSAGE_TOSTRING classname variablename =
     classname @ ''.getString('' @ [DQ] @ variablename @ [DQ] @ '')''"

text \<open>A loop that appends one result per element and stops at the first exception.\<close>

fun traverse :: "('a \<Rightarrow> py_error + 'b) \<Rightarrow> 'a list \<Rightarrow> py_error + 'b list" where
  "traverse f [] = Inr []"
| "traverse f (x # xs) =
     (case f x of
        Inl e \<Rightarrow> Inl e
      | Inr y \<Rightarrow> (case traverse f xs of Inl e \<Rightarrow> Inl e | Inr ys \<Rightarrow> Inr (y # ys)))"

text \<open>The body of the inner loop of \<^verbatim>\<open>build_replacement_patterns\<close>.\<close>

definition pattern_of_line :: "(string \<times> string) list \<Rightarrow> string \<Rightarrow> string \<Rightarrow> py_error + rule" where
  "pattern_of_line filesandpackages filepath line =
     (let classname = filepath_to_classname filepath
      in case line_to_variable line of
           Inl e \<Rightarrow> Inl e
         | Inr variablename \<Rightarrow>
             let fromstr = TEMPLATE_MESSAGE_VARIABLE classname variablename;
                 tostr = TEMPLATE_MESSAGE_TOSTRING classname variablename
             in case map_of filesandpackages filepath of
                  None \<Rightarrow> Inl KeyError
                | Some package \<Rightarrow> Inr (fromstr, tostr, classname, variablename, package))"

text \<open>The sort key \<^verbatim>\<open>lambda x: (len(x[3]), x[3], len(x[2]), x[0])\<close>.\<close>

definition pattern_key :: "rule \<Rightarrow> nat \<times> string \<times> nat \<times> string" where
  "pattern_key x =
     (case x of (FROM, TO, classname, variablename, package) \<Rightarrow>
        (length variablename, variablename, length classname, FROM))"

text \<open>
  The two dictionaries are association lists (a dictionary has each key once);
  \<^verbatim>\<open>sorted(filesandlines.items())\<close> orders them by path, and \<^verbatim>\<open>sorted\<close> is stable.
\<close>

definition collect_patterns ::
  "(string \<times> string list) list \<Rightarrow> (string \<times> string) list \<Rightarrow> py_error + rule list" where
  "collect_patterns filesandlines filesandpackages =
     (case traverse (\<lambda>(filepath, lines). traverse (pattern_of_line filesandpackages filepath) lines)
             (sort_key fst filesandlines) of
        Inl e \<Rightarrow> Inl e
      | Inr pss \<Rightarrow> Inr (concat pss))"

definition build_replacement_patterns ::
  "(string \<times> string list) list \<Rightarrow> (string \<times> string) list \<Rightarrow> py_error + rule list" where
  "build_replacement_patterns filesandlines filesandpackages =
     (case collect_patterns filesandlines filesandpackages of
        Inl e \<Rightarrow> Inl e
      | Inr patterns \<Rightarrow> Inr (rev (sort_key pattern_key patterns)))"

section \<open>Rewrite engine\<close>

text \<open>
  The two patterns of \<^verbatim>\<open>regex_replace_variable_safely\<close>:
  \<^verbatim>\<open>'[^\\."]' + variablename + '[^"]'\<close> and \<^verbatim>\<open>'^[^"]' + variablename\<close>.
\<close>

definition variablewithoutdot :: "string \<Rightarrow> regex" where
  "variablewithoutdot variablename =
     Regex False ([NotOf [CHR ''.'', DQ]] @ lit variablename @ [NotOf [DQ]])"

definition variableatstart :: "string \<Rightarrow> regex" where
  "variableatstart variablename = Regex True ([NotOf [DQ]] @ lit variablename)"

text \<open>Where a match of a pattern without \<^verbatim>\<open>.*\<close> lies.\<close>

lemma match_here_fixed_length:
  "DotStar \<notin> set r \<Longrightarrow> match_here r s = Some n \<Longrightarrow> n = length r \<and> n \<le> length s"
  by (induction r s arbitrary: n rule: match_here.induct) (auto split: if_splits)

lemma scan_bounds:
  "scan r s i = Some (a, b) \<Longrightarrow>
     i \<le> a \<and> a - i \<le> length s \<and> match_here r (drop (a - i) s) = Some (b - a) \<and> a \<le> b"
proof (induction r s i rule: scan.induct)
  case (1 r i)
  then show ?case by (auto split: option.splits)
next
  case (2 r x xs i)
  show ?case
  proof (cases "match_here r (x # xs)")
    case None
    with 2 have "Suc i \<le> a \<and> a - Suc i \<le> length xs
        \<and> match_here r (drop (a - Suc i) xs) = Some (b - a) \<and> a \<le> b"
      by simp
    moreover from this have "a - i = Suc (a - Suc i)" by linarith
    ultimately show ?thesis by simp
  next
    case (Some n)
    with 2 show ?thesis by auto
  qed
qed

lemma re_search_variablewithoutdot:
  assumes "re_search (variablewithoutdot v) content pos = Some (a, b)"
  shows "pos \<le> a \<and> b = a + length v + 2 \<and> b \<le> length content"
proof -
  let ?r = "[NotOf [CHR ''.'', DQ]] @ lit v @ [NotOf [DQ]]"
  from assms have p: "pos \<le> length content" and s: "scan ?r (drop pos content) pos = Some (a, b)"
    by (auto simp: variablewithoutdot_def split: if_splits)
  from scan_bounds[OF s]
  have a: "pos \<le> a" "a - pos \<le> length content - pos" "a \<le> b"
    and m: "match_here ?r (drop (a - pos) (drop pos content)) = Some (b - a)"
    by auto
  have "DotStar \<notin> set ?r" by (auto simp: lit_def)
  from match_here_fixed_length[OF this m]
  have "b - a = length v + 2" "b - a \<le> length content - (pos + (a - pos))"
    by (auto simp: lit_def)
  with a p show ?thesis by auto
qed

lemma re_search_variableatstart:
  assumes "re_search (variableatstart v) content pos = Some (a, b)"
  shows "pos = 0 \<and> a = 0 \<and> b = length v + 1 \<and> b \<le> length content"
proof -
  let ?r = "[NotOf [DQ]] @ lit v"
  from assms have p: "pos = 0" "a = 0" and m: "match_here ?r content = Some b"
    by (auto simp: variableatstart_def split: if_splits)
  have "DotStar \<notin> set ?r" by (auto simp: lit_def)
  from match_here_fixed_length[OF this m] p show ?thesis by (auto simp: lit_def)
qed

text \<open>
  The first \<^verbatim>\<open>while\<close> loop of \<^verbatim>\<open>regex_replace_variable_safely\<close>; \<open>pos\<close> is where the next
  \<^verbatim>\<open>search\<close> starts (0 for the search before the loop).
\<close>

function rrvs_loop1 :: "string \<Rightarrow> string \<Rightarrow> string \<Rightarrow> nat \<Rightarrow> string" where
  "rrvs_loop1 variablename TO content pos =
     (case re_search (variablewithoutdot variablename) content pos of
        None \<Rightarrow> content
      | Some (start, end) \<Rightarrow>
          if start < length content
          then rrvs_loop1 variablename TO
                 (take (start + 1) content @ TO @ drop (end - 1) content)
                 (nat (int end + int (length TO) - int (length variablename) - 1))
          else content)"
  by pat_completeness auto
termination
proof (relation "measure (\<lambda>(variablename, TO, content, pos). length content - pos)", goal_cases)
  case 1
  show ?case by simp
next
  case (2 variablename TO content pos x2 start "end")
  then have "re_search (variablewithoutdot variablename) content pos = Some (start, end)"
    by simp
  from re_search_variablewithoutdot[OF this]
  have "pos \<le> start" "end = start + length variablename + 2" "end \<le> length content"
    by auto
  then show ?case by (simp add: nat_diff_distrib' nat_add_distrib)
qed

declare rrvs_loop1.simps [simp del]

text \<open>The second \<^verbatim>\<open>while\<close> loop, on \<^verbatim>\<open>variableatstart\<close>.\<close>

function rrvs_loop2 :: "string \<Rightarrow> string \<Rightarrow> string \<Rightarrow> nat \<Rightarrow> string" where
  "rrvs_loop2 variablename TO content pos =
     (case re_search (variableatstart variablename) content pos of
        None \<Rightarrow> content
      | Some (start, end) \<Rightarrow>
          if start < length content
          then rrvs_loop2 variablename TO
                 (take start content @ TO @ drop end content)
                 (nat (int end + int (length TO) - int (length variablename)))
          else content)"
  by pat_completeness auto
termination
proof (relation "measure (\<lambda>(variablename, TO, content, pos). if pos = 0 then 1 else 0)", goal_cases)
  case 1
  show ?case by simp
next
  case (2 variablename TO content pos x2 start "end")
  then have "re_search (variableatstart variablename) content pos = Some (start, end)"
    by simp
  from re_search_variableatstart[OF this]
  have "pos = 0" "end = length variablename + 1"
    by auto
  then show ?case by simp
qed

declare rrvs_loop2.simps [simp del]

definition regex_replace_variable_safely :: "string \<Rightarrow> string \<Rightarrow> string \<Rightarrow> string" where
  "regex_replace_variable_safely content variablename TO =
     (let content = rrvs_loop1 variablename TO content 0;
          content = rrvs_loop2 variablename TO content 0
      in content)"

text \<open>
  The body of the first \<^verbatim>\<open>for\<close> loop of \<^verbatim>\<open>replace_NLS_usage\<close>, on the state
  \<open>(content, replaced)\<close>. The two matchers are the import strings with their dots (and the
  star) escaped, that is, literal patterns.
\<close>

definition replace_rule :: "rule \<Rightarrow> string \<times> string set \<Rightarrow> string \<times> string set" where
  "replace_rule r st =
     (case r of (FROM, TO, classname, variablename, package) \<Rightarrow>
      case st of (content, replaced) \<Rightarrow>
      let classimport = ''import '' @ package @ ''.'' @ classname;
          staticimportvariable = ''import static '' @ package @ ''.'' @ FROM;
          staticimportstar = ''import static '' @ package @ ''.'' @ classname @ ''.*'';
          uses_static_variable_import_matcher = Regex False (lit staticimportvariable);
          uses_static_star_import_matcher = Regex False (lit staticimportstar);
          (content, replaced) =
            (if staticimportvariable \<notin> replaced
                \<and> re_search uses_static_variable_import_matcher content 0 \<noteq> None
             then
               let replaced = insert staticimportvariable replaced;
                   content = replace_str content staticimportvariable classimport
               in if variablename \<notin> replaced
                  then (regex_replace_variable_safely content variablename TO,
                        insert variablename replaced)
                  else (content, replaced)
             else (content, replaced));
          (content, replaced) =
            (if re_search uses_static_star_import_matcher content 0 \<noteq> None
                \<and> variablename \<notin> replaced
             then (regex_replace_variable_safely content variablename TO,
                   insert variablename replaced)
             else (content, replaced));
          (content, replaced) =
            (if FROM \<notin> replaced \<and> contains content FROM
             then (replace_str content FROM TO, insert FROM replaced)
             else (content, replaced))
      in (content, replaced))"

text \<open>The body of the second \<^verbatim>\<open>for\<close> loop: the star import itself.\<close>

definition replace_star_import :: "rule \<Rightarrow> string \<times> string set \<Rightarrow> string \<times> string set" where
  "replace_star_import r st =
     (case r of (FROM, TO, classname, variablename, package) \<Rightarrow>
      case st of (content, replaced) \<Rightarrow>
      let classimport = ''import '' @ package @ ''.'' @ classname;
          staticimportstar = ''import static '' @ package @ ''.'' @ classname @ ''.*'';
          uses_static_star_import_matcher = Regex False (lit staticimportstar)
      in if re_search uses_static_star_import_matcher content 0 \<noteq> None
            \<and> staticimportstar \<notin> replaced
         then (replace_str content staticimportstar classimport, insert staticimportstar replaced)
         else (content, replaced))"

definition replace_NLS_usage :: "string \<Rightarrow> rule list \<Rightarrow> string" where
  "replace_NLS_usage content patterns =
     (let st = foldl (\<lambda>st r. replace_rule r st) (content, {}) patterns;
          st = foldl (\<lambda>st r. replace_star_import r st) st patterns
      in fst st)"

section \<open>Message-holder transformer: blank-line cleanup\<close>

text \<open>
  \<^verbatim>\<open>all_empty(*args)\<close> of \<^verbatim>\<open>cleanup_empty_lines\<close>: no argument is \<^verbatim>\<open>None\<close> and every one
  strips to the empty string.
\<close>

definition all_empty :: "string option list \<Rightarrow> bool" where
  "all_empty args =
     (False \<notin> set (map (\<lambda>l. case l of None \<Rightarrow> False | Some x \<Rightarrow> strip x = []) args))"

text \<open>
  The \<^verbatim>\<open>for idx, line in enumerate(lines)\<close> loop of \<^verbatim>\<open>cleanup_empty_lines\<close>, with its
  variables \<^verbatim>\<open>prevprev\<close>, \<^verbatim>\<open>prev\<close> and \<^verbatim>\<open>newlines\<close>.
\<close>

fun cleanup_loop ::
  "nat \<Rightarrow> nat \<Rightarrow> string option \<Rightarrow> string option \<Rightarrow> string list \<Rightarrow> string list \<Rightarrow> string list"
where
  "cleanup_loop nlines idx prevprev prev newlines [] = newlines"
| "cleanup_loop nlines idx prevprev prev newlines (line # rest) =
     cleanup_loop nlines (idx + 1) prev (Some line)
       (if \<not> all_empty [prevprev, prev, Some line]
           \<and> (int idx \<noteq> int nlines - 1 \<or> \<not> all_empty [prev, Some line])
        then newlines @ [line] else newlines)
       rest"

definition cleanup_empty_lines :: "string \<Rightarrow> string" where
  "cleanup_empty_lines content =
     (let lines = split_on NL content;
          nlines = length lines
      in join [NL] (cleanup_loop nlines 0 None None [] lines))"

text \<open>A line is blank when it strips to the empty string.\<close>

definition blank :: "string \<Rightarrow> bool" where
  "blank l = (strip l = [])"

section \<open>Message-holder transformer and the main pipeline\<close>

text \<open>
  The state the scripts act on: the files, and what \<^verbatim>\<open>logging.warning\<close> and
  \<^verbatim>\<open>logging.error\<close> have been called with (the \<^verbatim>\<open>info\<close> and \<^verbatim>\<open>debug\<close> calls are left out).
  A function that can raise returns the state it leaves behind and either the exception or
  its value.
\<close>

datatype log_entry = LogWarning string | LogError string

record world =
  files :: filesystem
  log :: "log_entry list"

text \<open>\<^verbatim>\<open>remove_lines_from_file\<close>: the file is written back whether or not a line was dropped.\<close>

definition remove_lines_from_file ::
  "filesystem \<Rightarrow> string \<Rightarrow> string list \<Rightarrow> py_error + filesystem \<times> bool" where
  "remove_lines_from_file fs filepath lines =
     (case fs filepath of
        None \<Rightarrow> Inl FileNotFoundError
      | Some content \<Rightarrow>
          let towrite = filter (\<lambda>i. i \<notin> set lines) (file_lines content);
              changed = list_ex (\<lambda>i. i \<in> set lines) (file_lines content)
          in Inr (fs(filepath \<mapsto> concat towrite), changed))"

definition ResourceBundle :: string where
  "ResourceBundle =
     ''private static final IMessageResolver MSG = new ResourceBundleMessageResolver(BUNDLE_NAME);''"

text \<open>\<^verbatim>\<open>replace_static_constructor_with_resolver\<close>: both \<^verbatim>\<open>index\<close> calls can raise.\<close>

definition replace_static_constructor_with_resolver :: "string \<Rightarrow> py_error + string" where
  "replace_static_constructor_with_resolver content =
     (let static = ''static {''
      in case str_find content static of
           None \<Rightarrow> Inl ValueError
         | Some startidx \<Rightarrow>
             (case str_find (drop (startidx + length static) content) ''}'' of
                None \<Rightarrow> Inl ValueError
              | Some stopidx \<Rightarrow>
                  Inr (take startidx content @ ResourceBundle
                       @ drop (startidx + length static + stopidx + 1) content)))"

definition additional_imports :: "string list" where
  "additional_imports =
     [''import net.disy.commons.core.locale.IMessageResolver'',
      ''import net.disy.commons.core.locale.ResourceBundleMessageResolver'',
      ''import java.util.MissingResourceException'']"

text \<open>
  \<^verbatim>\<open>add_import_to_string\<close>. When the import is not found, the handler evaluates
  \<^verbatim>\<open>logging.error("File %s has no NLS import!", filepath)\<close>, and \<^verbatim>\<open>filepath\<close> is neither a
  local nor a global name there: a \<^verbatim>\<open>NameError\<close> is raised before anything is logged.
\<close>

definition add_import_to_string :: "string \<Rightarrow> string \<Rightarrow> py_error + string" where
  "add_import_to_string content existing_import =
     (case str_find content existing_import of
        None \<Rightarrow> Inl NameError
      | Some import_idx \<Rightarrow>
          let importstring = join ('';'' @ [NL]) additional_imports @ '';'' @ [NL, NL]
          in Inr (take import_idx content @ importstring @ drop import_idx content))"

definition TEMPLATE_GETSTRING :: string where
  "TEMPLATE_GETSTRING =
     [NL] @ ''  public static String getString(String key) {'' @ [NL]
     @ ''    return MSG.getString(key);'' @ [NL] @ ''  }''"

text \<open>\<^verbatim>\<open>add_to_end_of_last_class\<close>: \<^verbatim>\<open>rindex\<close> raises when no line starts with a brace.\<close>

definition add_to_end_of_last_class :: "string \<Rightarrow> string \<Rightarrow> py_error + string" where
  "add_to_end_of_last_class content block =
     (case str_rfind content ([NL] @ ''}'') of
        None \<Rightarrow> Inl ValueError
      | Some endidx \<Rightarrow> Inr (take endidx content @ block @ drop endidx content))"

text \<open>
  \<^verbatim>\<open>rewrite_NLS_Messages_file\<close>. Only the call of
  \<^verbatim>\<open>replace_static_constructor_with_resolver\<close> stands in a \<^verbatim>\<open>try\<close>, which catches
  \<^verbatim>\<open>ValueError\<close>.
\<close>

definition rewrite_NLS_Messages_file ::
  "world \<Rightarrow> string \<Rightarrow> string list \<Rightarrow> world \<times> (py_error + bool)" where
  "rewrite_NLS_Messages_file w filepath variablelines =
     (case remove_lines_from_file (files w) filepath variablelines of
        Inl e \<Rightarrow> (w, Inl e)
      | Inr (fs, changed) \<Rightarrow>
          let w = w\<lparr>files := fs\<rparr>
          in case fs filepath of
               None \<Rightarrow> (w, Inl FileNotFoundError)
             | Some content \<Rightarrow>
                 (case replace_static_constructor_with_resolver content of
                    Inl e \<Rightarrow>
                      if e = ValueError
                      then (w\<lparr>log := log w @ [LogWarning (''No static block found in file ''
                                                            @ filepath)]\<rparr>,
                            Inr False)
                      else (w, Inl e)
                  | Inr rewritten \<Rightarrow>
                      (case add_import_to_string rewritten ''import org.eclipse.osgi.util.NLS'' of
                         Inl e \<Rightarrow> (w, Inl e)
                       | Inr rewritten \<Rightarrow>
                           (case add_to_end_of_last_class rewritten TEMPLATE_GETSTRING of
                              Inl e \<Rightarrow> (w, Inl e)
                            | Inr rewritten \<Rightarrow>
                                let rewritten = cleanup_empty_lines rewritten;
                                    rewritten = replace_str rewritten '' extends NLS'' [];
                                    changed = (changed \<or> rewritten \<noteq> content)
                                in (if changed then w\<lparr>files := fs(filepath \<mapsto> rewritten)\<rparr>
                                    else w,
                                    Inr changed)))))"





section \<open>Settings generator\<close>

text \<open>The constants of \<^verbatim>\<open>eclipse_jinto_setup.py\<close>; \<open>BSL\<close> is the backslash the templates hold
  before each \<^verbatim>\<open>=\<close> and before each \<^verbatim>\<open>n\<close> that stands for a line break in the XML.\<close>

definition BUNDLE_DECLARATION :: string where
  "BUNDLE_DECLARATION = ''private static final String BUNDLE_NAME''"

definition CLASS_DECLARATION :: string where
  "CLASS_DECLARATION = ''public class ''"

text \<open>\<^verbatim>\<open>TEMPLATE_RESOURCE_BUNDLE_REFERENCE_TAG.format(accessor=..., properties=...)\<close>\<close>

definition process_bundle_template :: "string \<Rightarrow> string \<Rightarrow> string" where
  "process_bundle_template accessor properties =
     ''<resourceBundleReference resourceBundleName'' @ [BSL] @ ''='' @ [DQ] @ properties @ [DQ]
     @ ''>'' @ [BSL] @ ''n<accessor typeName'' @ [BSL] @ ''='' @ [DQ] @ accessor @ [DQ] @ ''>''
     @ [BSL] @ ''n<methodReference methodName'' @ [BSL] @ ''='' @ [DQ] @ ''getString'' @ [DQ]
     @ ''>'' @ [BSL] @ ''n<parameter index'' @ [BSL] @ ''='' @ [DQ] @ ''0'' @ [DQ]
     @ '' isSelected'' @ [BSL] @ ''='' @ [DQ] @ ''true'' @ [DQ]
     @ '' parameterName'' @ [BSL] @ ''='' @ [DQ] @ ''key'' @ [DQ]
     @ '' parameterType'' @ [BSL] @ ''='' @ [DQ] @ ''java.lang.String'' @ [DQ] @ ''/>''
     @ [BSL] @ ''n</methodReference>'' @ [BSL] @ ''n</accessor>'' @ [BSL]
     @ ''n</resourceBundleReference>''"

text \<open>\<^verbatim>\<open>TEMPLATE.format(resource_bundle_reference=...)\<close>\<close>

definition TEMPLATE :: "string \<Rightarrow> string" where
  "TEMPLATE resource_bundle_reference =
     ''de.guhsoft.jinto.core.accessorConfiguration=<?xml version'' @ [BSL] @ ''='' @ [DQ]
     @ ''1.0'' @ [DQ] @ '' encoding'' @ [BSL] @ ''='' @ [DQ] @ ''UTF-8'' @ [DQ] @ ''?>''
     @ [BSL] @ ''n<root>'' @ [BSL] @ ''n'' @ resource_bundle_reference @ [BSL] @ ''n</root>''
     @ [NL] @ ''eclipse.preferences.version=1'' @ [NL]"

definition generate_settings_data :: "(string \<times> string) list \<Rightarrow> string" where
  "generate_settings_data accessors_and_properties =
     TEMPLATE (join ([BSL] @ ''n'')
       (map (\<lambda>(accessor, properties). process_bundle_template accessor properties)
          accessors_and_properties))"

text \<open>
  Reading a file opened in text mode with the default \<^verbatim>\<open>newline\<close>: every line ending is
  translated to a line feed.
\<close>

fun translate_newlines :: "string \<Rightarrow> string" where
  "translate_newlines [] = []"
| "translate_newlines (c # cs) =
     (if c = CR then
        (case cs of
           [] \<Rightarrow> [NL]
         | d # ds \<Rightarrow> if d = NL then NL # translate_newlines ds else NL # translate_newlines cs)
      else c # translate_newlines cs)"

text \<open>
  The loop of \<^verbatim>\<open>extract_accessor_and_properties\<close> with its three variables, each set by the
  first line that qualifies; the loop breaks once the three are set.
\<close>

fun extract_loop ::
  "string option \<Rightarrow> string option \<Rightarrow> string option \<Rightarrow> string list
     \<Rightarrow> string option \<times> string option \<times> string option" where
  "extract_loop package properties classname [] = (package, properties, classname)"
| "extract_loop package properties classname (line # rest) =
     (let package =
            (if package = None \<and> startswith (strip line) ''package''
             then Some (strip (replace_str (replace_str line '';'' []) ''package'' []))
             else package);
          properties =
            (if properties = None \<and> contains line BUNDLE_DECLARATION
             then
               let properties =
                     strip (replace_str (replace_str (replace_str
                       (replace_str line BUNDLE_DECLARATION []) [DQ] []) ''='' []) '';'' [])
               in (case str_find properties ''/'' of
                     None \<Rightarrow> Some properties
                   | Some idx \<Rightarrow> Some (strip (take idx properties)))
             else properties);
          classname =
            (if classname = None \<and> contains line CLASS_DECLARATION
             then Some (strip (replace_str (replace_str line CLASS_DECLARATION []) ''{'' []))
             else classname)
      in if package \<noteq> None \<and> properties \<noteq> None \<and> classname \<noteq> None
         then (package, properties, classname)
         else extract_loop package properties classname rest)"

definition extract_accessor_and_properties ::
  "filesystem \<Rightarrow> string \<Rightarrow> py_error + string \<times> string" where
  "extract_accessor_and_properties fs filepath =
     (case fs filepath of
        None \<Rightarrow> Inl FileNotFoundError
      | Some content \<Rightarrow>
          (case extract_loop None None None (file_lines (translate_newlines content)) of
             (None, _, _) \<Rightarrow> Inl ValueError
           | (Some package, None, _) \<Rightarrow> Inl ValueError
           | (Some package, Some properties, None) \<Rightarrow> Inl ValueError
           | (Some package, Some properties, Some classname) \<Rightarrow>
               Inr (package @ ''.'' @ classname, properties)))"

section \<open>Properties of the blank-line cleanup\<close>

lemma strip_Nil_iff: "strip l = [] \<longleftrightarrow> list_all isspace l"
proof
  assume "strip l = []"
  then have h: "dropWhile isspace (rev (dropWhile isspace l)) = []" by (simp add: strip_def)
  show "list_all isspace l"
  proof (rule ccontr)
    assume "\<not> list_all isspace l"
    then have "dropWhile isspace l \<noteq> []" by (simp add: list_all_iff)
    then obtain x xs where e: "dropWhile isspace l = x # xs" by (cases "dropWhile isspace l") auto
    then have "\<not> isspace x" using hd_dropWhile[of isspace l] by auto
    with e h show False by auto
  qed
next
  assume "list_all isspace l"
  then have d: "dropWhile isspace l = []" by (simp add: list_all_iff)
  show "strip l = []" unfolding strip_def d by simp
qed


text \<open>Whether a remembered line (\<^verbatim>\<open>prev\<close>, \<^verbatim>\<open>prevprev\<close>) is present and blank.\<close>

fun bl :: "string option \<Rightarrow> bool" where
  "bl None = False" | "bl (Some x) = blank x"



text \<open>The loop without its accumulator: the lines it appends, in order.\<close>
fun kept :: "nat \<Rightarrow> nat \<Rightarrow> string option \<Rightarrow> string option \<Rightarrow> string list \<Rightarrow> string list" where
  "kept n idx pp p [] = []"
| "kept n idx pp p (l # ls) =
     (if \<not> (bl pp \<and> bl p \<and> blank l) \<and> (Suc idx \<noteq> n \<or> \<not> (bl p \<and> blank l)) then [l] else [])
     @ kept n (Suc idx) p (Some l) ls"


fun after :: "string option \<Rightarrow> string option \<Rightarrow> string list \<Rightarrow> string option \<times> string option" where
  "after pp p [] = (pp, p)"
| "after pp p (l # ls) = after p (Some l) ls"


lemma after_snoc: "after pp p (xs @ [x]) = (snd (after pp p xs), Some x)"
  by (induction xs arbitrary: pp p) auto

lemma after_snoc2: "after pp p (xs @ [x, y]) = (Some x, Some y)"
  by (induction xs arbitrary: pp p) auto















lemma kept_first: "kept n 0 None None (l # ls) \<noteq> []"
  by simp









section \<open>Properties of the replacement-rule builder\<close>

text \<open>
  The order the specification words: \<open>a\<close> may stand before \<open>b\<close> when \<open>a\<close> has the longer
  variable name; with equal lengths the lexically larger variable name; with equal variable
  names the longer class name; with equal lengths the lexically larger (or equal) \<open>FROM\<close>.
\<close>

definition goes_before :: "rule \<Rightarrow> rule \<Rightarrow> bool" where
  "goes_before a b =
     (case a of (FROMa, TOa, classa, vara, packagea) \<Rightarrow>
      case b of (FROMb, TOb, classb, varb, packageb) \<Rightarrow>
        length varb < length vara
        \<or> (length vara = length varb
            \<and> (varb < vara
                \<or> (vara = varb
                    \<and> (length classb < length classa
                        \<or> (length classa = length classb \<and> FROMb \<le> FROMa))))))"

definition rule_variable :: "rule \<Rightarrow> string" where
  "rule_variable x = (case x of (FROM, TO, classname, variablename, package) \<Rightarrow> variablename)"

text \<open>The rules of the variables \<^verbatim>\<open>FOO_a\<close> and \<^verbatim>\<open>FOO_aa\<close> of class \<^verbatim>\<open>Bah\<close> in package \<^verbatim>\<open>foo\<close>.\<close>

definition rule_FOO_a :: rule where
  "rule_FOO_a =
     (''Bah.FOO_a'', ''Bah.getString('' @ [DQ] @ ''FOO_a'' @ [DQ] @ '')'', ''Bah'', ''FOO_a'', ''foo'')"

definition rule_FOO_aa :: rule where
  "rule_FOO_aa =
     (''Bah.FOO_aa'', ''Bah.getString('' @ [DQ] @ ''FOO_aa'' @ [DQ] @ '')'', ''Bah'', ''FOO_aa'',
      ''foo'')"

lemma pattern_key_goes_before: "pattern_key b \<le> pattern_key a \<longleftrightarrow> goes_before a b"
  by (cases a; cases b) (auto simp: pattern_key_def goes_before_def)

lemma sorted_rev_sort_key: "sorted_wrt goes_before (rev (sort_key pattern_key raw))"
proof -
  have "sorted (map pattern_key (sort_key pattern_key raw))"
    by (rule sorted_sort_key)
  then have "sorted_wrt (\<lambda>a b. pattern_key a \<le> pattern_key b) (sort_key pattern_key raw)"
    by (simp add: sorted_map)
  then have "sorted_wrt (\<lambda>a b. pattern_key b \<le> pattern_key a) (rev (sort_key pattern_key raw))"
    by (simp add: sorted_wrt_rev)
  then show ?thesis
    by (simp add: pattern_key_goes_before)
qed

lemma goes_before_length:
  "goes_before a b \<Longrightarrow> length (rule_variable b) \<le> length (rule_variable a)"
  by (cases a; cases b) (auto simp: goes_before_def rule_variable_def)

lemma longer_variable_first:
  assumes s: "sorted_wrt goes_before ps"
    and i: "i < length ps" and j: "j < length ps"
    and l: "length (rule_variable (ps ! j)) < length (rule_variable (ps ! i))"
  shows "i < j"
proof (rule ccontr)
  assume "\<not> i < j"
  then consider "i = j" | "j < i" by linarith
  then show False
  proof cases
    case 1
    with l show False by simp
  next
    case 2
    with s i have "goes_before (ps ! j) (ps ! i)"
      by (simp add: sorted_wrt_iff_nth_less)
    from goes_before_length[OF this] l show False by simp
  qed
qed

lemma build_FOO_example:
  "build_replacement_patterns
     [(''foo/Bah.java'',
       [''  public static String FOO_a;'' @ [NL], ''  public static String FOO_aa;'' @ [NL]])]
     [(''foo/Bah.java'', ''foo'')]
   = Inr [rule_FOO_aa, rule_FOO_a]"
  by (simp add: build_replacement_patterns_def collect_patterns_def pattern_of_line_def
      line_to_variable_def split_ws_def isspace_def NL_def filepath_to_classname_def
      basename_def splitext_def startswith_def TEMPLATE_MESSAGE_VARIABLE_def
      TEMPLATE_MESSAGE_TOSTRING_def pattern_key_def rule_FOO_a_def rule_FOO_aa_def
      replace_str.simps)

text \<open>
  C2: when \<^verbatim>\<open>build_replacement_patterns\<close> returns, its result is the collected rules sorted
  ascending by the key (variable-name length, variable name, class-name length, \<open>FROM\<close>) and
  reversed: a permutation of the collected rules that is descending in that key, so that a rule
  with a longer variable name stands before every rule with a shorter one; and for
  \<^verbatim>\<open>FOO_a\<close> and \<^verbatim>\<open>FOO_aa\<close> declared in the same class the rule of \<^verbatim>\<open>FOO_aa\<close> comes first.
\<close>

theorem build_replacement_patterns_order:
  "(build_replacement_patterns filesandlines filesandpackages = Inr ps \<longrightarrow>
      (\<exists>raw. collect_patterns filesandlines filesandpackages = Inr raw
          \<and> ps = rev (sort_key pattern_key raw) \<and> mset ps = mset raw)
      \<and> sorted (map pattern_key (rev ps))
      \<and> sorted_wrt goes_before ps
      \<and> (i < length ps \<and> j < length ps
          \<and> length (rule_variable (ps ! j)) < length (rule_variable (ps ! i)) \<longrightarrow> i < j))
   \<and> build_replacement_patterns
        [(''foo/Bah.java'',
          [''  public static String FOO_a;'' @ [NL], ''  public static String FOO_aa;'' @ [NL]])]
        [(''foo/Bah.java'', ''foo'')]
      = Inr [rule_FOO_aa, rule_FOO_a]"
proof (intro conjI impI)
  assume b: "build_replacement_patterns filesandlines filesandpackages = Inr ps"
  then obtain raw where raw: "collect_patterns filesandlines filesandpackages = Inr raw"
    and ps: "ps = rev (sort_key pattern_key raw)"
    by (auto simp: build_replacement_patterns_def split: sum.splits)
  have "mset ps = mset raw"
    by (simp add: ps)
  with raw ps
  show "\<exists>raw. collect_patterns filesandlines filesandpackages = Inr raw
          \<and> ps = rev (sort_key pattern_key raw) \<and> mset ps = mset raw"
    by blast
  show "sorted (map pattern_key (rev ps))"
    by (simp add: ps)
  show s: "sorted_wrt goes_before ps"
    unfolding ps by (rule sorted_rev_sort_key)
  assume "i < length ps \<and> j < length ps
          \<and> length (rule_variable (ps ! j)) < length (rule_variable (ps ! i))"
  then show "i < j"
    using longer_variable_first[OF s] by blast
next
  show "build_replacement_patterns
        [(''foo/Bah.java'',
          [''  public static String FOO_a;'' @ [NL], ''  public static String FOO_aa;'' @ [NL]])]
        [(''foo/Bah.java'', ''foo'')]
      = Inr [rule_FOO_aa, rule_FOO_a]"
    by (rule build_FOO_example)
qed

theorem build_replacement_patterns_order_witness:
  "build_replacement_patterns
        [(''foo/Bah.java'',
          [''  public static String FOO_a;'' @ [NL], ''  public static String FOO_aa;'' @ [NL]])]
        [(''foo/Bah.java'', ''foo'')]
      = Inr [rule_FOO_aa, rule_FOO_a]
   \<and> sorted_wrt goes_before [rule_FOO_aa, rule_FOO_a]
   \<and> sorted (map pattern_key [rule_FOO_a, rule_FOO_aa])
   \<and> length (rule_variable ([rule_FOO_aa, rule_FOO_a] ! 1))
       < length (rule_variable ([rule_FOO_aa, rule_FOO_a] ! 0))
   \<and> (0::nat) < 1"
  using build_replacement_patterns_order
    [of "[(''foo/Bah.java'',
          [''  public static String FOO_a;'' @ [NL], ''  public static String FOO_aa;'' @ [NL]])]"
        "[(''foo/Bah.java'', ''foo'')]" "[rule_FOO_aa, rule_FOO_a]" 0 1]
    build_FOO_example
  by (simp add: rule_variable_def rule_FOO_a_def rule_FOO_aa_def)

section \<open>Properties of the rewrite engine\<close>

text \<open>Searching for a literal pattern is looking for a substring.\<close>

lemma match_here_lit:
  "match_here (lit p @ r) s =
     (if startswith s p then map_option (\<lambda>n. length p + n) (match_here r (drop (length p) s)) else None)"
proof (induction p arbitrary: s)
  case Nil
  then show ?case by (cases "match_here r s") (simp_all add: lit_def startswith_def)
next
  case (Cons c p)
  show ?case
  proof (cases s)
    case Nil then show ?thesis by (simp add: lit_def startswith_def)
  next
    case (Cons x xs)
    with Cons.IH[of xs] show ?thesis
      by (auto simp: lit_def startswith_def option.map_comp comp_def)
  qed
qed


lemma scan_None_iff:
  "scan r s i = None \<longleftrightarrow> (\<forall>k\<le>length s. match_here r (drop k s) = None)"
proof (induction r s i rule: scan.induct)
  case (1 r i)
  then show ?case by (auto split: option.splits)
next
  case (2 r x xs i)
  show ?case
  proof (cases "match_here r (x # xs)")
    case (Some n)
    then show ?thesis by (auto intro: exI[of _ 0])
  next
    case None
    have "(\<forall>k\<le>length (x # xs). match_here r (drop k (x # xs)) = None)
        \<longleftrightarrow> (\<forall>k\<le>length xs. match_here r (drop k xs) = None)"
    proof
      assume a: "\<forall>k\<le>length (x # xs). match_here r (drop k (x # xs)) = None"
      show "\<forall>k\<le>length xs. match_here r (drop k xs) = None"
      proof (intro allI impI)
        fix k assume "k \<le> length xs"
        with a[rule_format, of "Suc k"] show "match_here r (drop k xs) = None" by simp
      qed
    next
      assume a: "\<forall>k\<le>length xs. match_here r (drop k xs) = None"
      show "\<forall>k\<le>length (x # xs). match_here r (drop k (x # xs)) = None"
      proof (intro allI impI)
        fix k assume k: "k \<le> length (x # xs)"
        show "match_here r (drop k (x # xs)) = None"
        proof (cases k)
          case 0 with None show ?thesis by simp
        next
          case (Suc j) with a k show ?thesis by simp
        qed
      qed
    qed
    with None 2 show ?thesis by simp
  qed
qed

lemma str_find_None_iff:
  "str_find s p = None \<longleftrightarrow> (\<forall>k\<le>length s. \<not> startswith (drop k s) p)"
proof (induction s)
  case Nil
  then show ?case by (auto simp: startswith_def)
next
  case (Cons x xs)
  show ?case
  proof (cases "startswith (x # xs) p")
    case True
    then show ?thesis by (auto intro: exI[of _ 0])
  next
    case False
    have "(\<forall>k\<le>length (x # xs). \<not> startswith (drop k (x # xs)) p)
        \<longleftrightarrow> (\<forall>k\<le>length xs. \<not> startswith (drop k xs) p)"
    proof
      assume a: "\<forall>k\<le>length (x # xs). \<not> startswith (drop k (x # xs)) p"
      show "\<forall>k\<le>length xs. \<not> startswith (drop k xs) p"
      proof (intro allI impI)
        fix k assume "k \<le> length xs"
        with a[rule_format, of "Suc k"] show "\<not> startswith (drop k xs) p" by simp
      qed
    next
      assume a: "\<forall>k\<le>length xs. \<not> startswith (drop k xs) p"
      show "\<forall>k\<le>length (x # xs). \<not> startswith (drop k (x # xs)) p"
      proof (intro allI impI)
        fix k assume k: "k \<le> length (x # xs)"
        show "\<not> startswith (drop k (x # xs)) p"
        proof (cases k)
          case 0 with False show ?thesis by simp
        next
          case (Suc j) with a k show ?thesis by simp
        qed
      qed
    qed
    with False Cons show ?thesis by simp
  qed
qed










text \<open>
  A file that uses \<^verbatim>\<open>FOO_a\<close> of class \<^verbatim>\<open>Bah\<close> through a static star import, and what the
  rewrite engine is to make of it.
\<close>

definition usage_content :: string where
  "usage_content =
     ''package bar;'' @ [NL, NL] @ ''import static foo.Bah.*;'' @ [NL, NL]
     @ ''public class Use {'' @ [NL] @ ''  void f() {'' @ [NL] @ ''    x = FOO_a;'' @ [NL]
     @ ''  }'' @ [NL] @ ''}'' @ [NL]"

definition usage_rewritten :: string where
  "usage_rewritten =
     ''package bar;'' @ [NL, NL] @ ''import foo.Bah;'' @ [NL, NL]
     @ ''public class Use {'' @ [NL] @ ''  void f() {'' @ [NL]
     @ ''    x = Bah.getString('' @ [DQ] @ ''FOO_a'' @ [DQ] @ '');'' @ [NL]
     @ ''  }'' @ [NL] @ ''}'' @ [NL]"

text \<open>
  C4: the declaration \<^verbatim>\<open>public static String FOO_a;\<close> of class \<^verbatim>\<open>Bah\<close> in package \<^verbatim>\<open>foo\<close>
  gives one rule, and with it \<^verbatim>\<open>replace_NLS_usage\<close> turns the line
  \<^verbatim>\<open>import static foo.Bah.*;\<close> into \<^verbatim>\<open>import foo.Bah;\<close> and the usage \<^verbatim>\<open>x = FOO_a;\<close> into
  \<^verbatim>\<open>x = Bah.getString("FOO_a");\<close>, leaving the rest of the file as it is.
\<close>

theorem replace_NLS_usage_star_import_scenario:
  "build_replacement_patterns
     [(''foo/Bah.java'', [''  public static String FOO_a;'' @ [NL]])]
     [(''foo/Bah.java'', ''foo'')]
     = Inr [rule_FOO_a]
   \<and> replace_NLS_usage usage_content [rule_FOO_a] = usage_rewritten
   \<and> split_on NL usage_content
       = [''package bar;'', [], ''import static foo.Bah.*;'', [], ''public class Use {'',
          ''  void f() {'', ''    x = FOO_a;'', ''  }'', ''}'', []]
   \<and> split_on NL (replace_NLS_usage usage_content [rule_FOO_a])
       = [''package bar;'', [], ''import foo.Bah;'', [], ''public class Use {'',
          ''  void f() {'', ''    x = Bah.getString('' @ [DQ] @ ''FOO_a'' @ [DQ] @ '');'',
          ''  }'', ''}'', []]"
  by code_simp

text \<open>
  The rule of a message variable named \<^verbatim>\<open>getString\<close>, declared in class \<^verbatim>\<open>Bah\<close>: its
  accessor call \<^verbatim>\<open>Bah.getString("getString")\<close> contains its own \<open>FROM\<close> pattern.
\<close>

definition rule_getString :: rule where
  "rule_getString =
     (''Bah.getString'', ''Bah.getString('' @ [DQ] @ ''getString'' @ [DQ] @ '')'', ''Bah'',
      ''getString'', ''foo'')"

lemma example_rules_plain: "list_all rule_plain [rule_FOO_a, rule_FOO_aa, rule_getString]"
  by code_simp

lemma build_rule_getString:
  "build_replacement_patterns
     [(''foo/Bah.java'', [''  public static String getString;'' @ [NL]])]
     [(''foo/Bah.java'', ''foo'')]
   = Inr [rule_getString]"
  by code_simp




text \<open>Where the patterns of the safe substitution can match.\<close>

lemma match_here_NotOf_lit:
  "match_here ([NotOf cs] @ lit v @ r) s = Some n \<Longrightarrow> startswith (tl s) v"
proof (cases s)
  case Nil
  then show "match_here ([NotOf cs] @ lit v @ r) s = Some n \<Longrightarrow> startswith (tl s) v"
    by simp
next
  case (Cons x xs)
  then show "match_here ([NotOf cs] @ lit v @ r) s = Some n \<Longrightarrow> startswith (tl s) v"
    by (auto simp: match_here_lit split: if_splits)
qed

lemma no_later_occurrence:
  assumes "\<not> contains (tl content) v"
  shows "\<not> startswith (tl (drop k content)) v"
proof -
  from assms have a: "\<forall>k\<le>length (tl content). \<not> startswith (drop k (tl content)) v"
    by (simp add: contains_def str_find_None_iff)
  show ?thesis
  proof (cases "k \<le> length (tl content)")
    case True
    with a show ?thesis by (simp add: drop_tl)
  next
    case False
    then have "tl (drop k content) = []"
      by simp
    moreover from a have "\<not> startswith (drop (length (tl content)) (tl content)) v"
      by blast
    ultimately show ?thesis
      by simp
  qed
qed

lemma rrvs_loop1_no_occurrence:
  assumes "\<not> contains (tl content) v"
  shows "rrvs_loop1 v TO content 0 = content"
proof -
  have "match_here ([NotOf [CHR ''.'', DQ]] @ lit v @ [NotOf [DQ]]) (drop k content) = None" for k
    using match_here_NotOf_lit[of "[CHR ''.'', DQ]" v "[NotOf [DQ]]" "drop k content"]
      no_later_occurrence[OF assms, of k]
    by (cases "match_here ([NotOf [CHR ''.'', DQ]] @ lit v @ [NotOf [DQ]]) (drop k content)") auto
  then have "re_search (variablewithoutdot v) content 0 = None"
    by (simp add: variablewithoutdot_def scan_None_iff)
  then show ?thesis
    by (subst rrvs_loop1.simps) simp
qed

lemma rrvs_loop2_no_occurrence:
  assumes "\<not> contains (tl content) v"
  shows "rrvs_loop2 v TO content 0 = content"
proof -
  have "match_here ([NotOf [DQ]] @ lit v) content = None"
    using match_here_NotOf_lit[of "[DQ]" v "[]" content] no_later_occurrence[OF assms, of 0]
    by (cases "match_here ([NotOf [DQ]] @ lit v) content") auto
  then have "re_search (variableatstart v) content 0 = None"
    by (simp add: variableatstart_def)
  then show ?thesis
    by (subst rrvs_loop2.simps) simp
qed

text \<open>
  C1: what \<^verbatim>\<open>regex_replace_variable_safely\<close> does with an occurrence at position 0. When the
  variable name occurs nowhere but (possibly) at the very start of the content, nothing is
  replaced: \<^verbatim>\<open>FOO used in code\<close> stays as it is, although the claim has the leading \<^verbatim>\<open>FOO\<close>
  replaced. The second pattern, \<^verbatim>\<open>^[^"]\<close> followed by the name, wants one character before
  the name, and the replacement takes that character away: \<^verbatim>\<open>.FOO;\<close> becomes \<^verbatim>\<open>MSG;\<close>.
  An occurrence between two context characters is replaced and both are kept.
\<close>

theorem regex_replace_variable_safely_leading_occurrence:
  "(\<not> contains (tl content) variablename \<longrightarrow>
      regex_replace_variable_safely content variablename TO = content)
   \<and> regex_replace_variable_safely ''FOO used in code'' ''FOO'' ''MSG'' = ''FOO used in code''
   \<and> regex_replace_variable_safely ''.FOO;'' ''FOO'' ''MSG'' = ''MSG;''
   \<and> regex_replace_variable_safely ''x = FOO;'' ''FOO'' ''MSG'' = ''x = MSG;''"
proof (intro conjI impI)
  assume "\<not> contains (tl content) variablename"
  then show "regex_replace_variable_safely content variablename TO = content"
    by (simp add: regex_replace_variable_safely_def rrvs_loop1_no_occurrence
        rrvs_loop2_no_occurrence)
next
  show "regex_replace_variable_safely ''FOO used in code'' ''FOO'' ''MSG'' = ''FOO used in code''"
    by code_simp
next
  show "regex_replace_variable_safely ''.FOO;'' ''FOO'' ''MSG'' = ''MSG;''"
    by code_simp
next
  show "regex_replace_variable_safely ''x = FOO;'' ''FOO'' ''MSG'' = ''x = MSG;''"
    by code_simp
qed

theorem regex_replace_variable_safely_leading_occurrence_witness:
  "\<not> contains (tl ''FOO used in code'') ''FOO''
   \<and> regex_replace_variable_safely ''FOO used in code'' ''FOO'' ''MSG'' = ''FOO used in code''"
proof -
  have h: "\<not> contains (tl ''FOO used in code'') ''FOO''"
    by code_simp
  from regex_replace_variable_safely_leading_occurrence[of "''FOO used in code''" "''FOO''" "''MSG''"]
    h show ?thesis
    by blast
qed

section \<open>Properties of the pattern extractor\<close>

text \<open>
  The property as the code has it: the three words occur as substrings, in this order and not
  overlapping, with no line feed between them.
\<close>

definition occurs_in_order :: "string \<Rightarrow> bool" where
  "occurs_in_order l =
     (\<exists>a b c d. l = a @ ''public'' @ b @ ''static'' @ c @ ''String'' @ d
        \<and> NL \<notin> set b \<and> NL \<notin> set c)"

text \<open>
  The property as the specification words it: the whitespace-separated tokens of the line
  hold \<^verbatim>\<open>public\<close>, \<^verbatim>\<open>static\<close> and \<^verbatim>\<open>String\<close> as whole tokens, in this order.
\<close>

fun in_order :: "string list \<Rightarrow> string list \<Rightarrow> bool" where
  "in_order [] tokens = True"
| "in_order (w # ws) [] = False"
| "in_order (w # ws) (t # tokens) =
     (if w = t then in_order ws tokens else in_order (w # ws) tokens)"

definition whole_words_in_order :: "string \<Rightarrow> bool" where
  "whole_words_in_order l = in_order [''public'', ''static'', ''String''] (split_ws l)"

lemma startswith_iff: "startswith s p \<longleftrightarrow> (\<exists>t. s = p @ t)"
proof
  assume "startswith s p"
  then have "s = p @ drop (length p) s"
    by (metis append_take_drop_id startswith_def)
  then show "\<exists>t. s = p @ t" ..
next
  assume "\<exists>t. s = p @ t"
  then show "startswith s p" by (auto simp: startswith_def)
qed

lemma match_lit_iff:
  "match_here (lit p @ r) s \<noteq> None \<longleftrightarrow> (\<exists>t. s = p @ t \<and> match_here r t \<noteq> None)"
  by (auto simp: match_here_lit startswith_iff)

lemma match_DotStar_step:
  "match_here (DotStar # r) (x # xs) \<noteq> None
     \<longleftrightarrow> (x \<noteq> NL \<and> match_here (DotStar # r) xs \<noteq> None) \<or> match_here r (x # xs) \<noteq> None"
  by (cases "match_here (DotStar # r) xs") simp_all

lemma match_DotStar_iff:
  "match_here (DotStar # r) s \<noteq> None
     \<longleftrightarrow> (\<exists>b t. s = b @ t \<and> NL \<notin> set b \<and> match_here r t \<noteq> None)"
proof (induction s)
  case Nil
  show ?case by simp
next
  case (Cons x xs)
  show ?case
  proof
    assume "match_here (DotStar # r) (x # xs) \<noteq> None"
    then consider (a) "x \<noteq> NL" "match_here (DotStar # r) xs \<noteq> None"
      | (b) "match_here r (x # xs) \<noteq> None"
      unfolding match_DotStar_step by blast
    then show "\<exists>b t. x # xs = b @ t \<and> NL \<notin> set b \<and> match_here r t \<noteq> None"
    proof cases
      case a
      with Cons.IH obtain b t where bt: "xs = b @ t" "NL \<notin> set b" "match_here r t \<noteq> None"
        by blast
      show ?thesis
      proof (intro exI conjI)
        show "x # xs = (x # b) @ t" using bt by simp
        show "NL \<notin> set (x # b)" using bt a by simp
        show "match_here r t \<noteq> None" by (rule bt)
      qed
    next
      case b
      show ?thesis
      proof (intro exI conjI)
        show "x # xs = [] @ (x # xs)" by simp
        show "NL \<notin> set []" by simp
        show "match_here r (x # xs) \<noteq> None" by (rule b)
      qed
    qed
  next
    assume "\<exists>b t. x # xs = b @ t \<and> NL \<notin> set b \<and> match_here r t \<noteq> None"
    then obtain b t where e: "x # xs = b @ t" and b: "NL \<notin> set b" and t: "match_here r t \<noteq> None"
      by blast
    show "match_here (DotStar # r) (x # xs) \<noteq> None"
    proof (cases b)
      case Nil
      with e t have "match_here r (x # xs) \<noteq> None" by simp
      then show ?thesis unfolding match_DotStar_step by blast
    next
      case (Cons y ys)
      with e b have y: "x \<noteq> NL" "xs = ys @ t" "NL \<notin> set ys" by auto
      with t have "\<exists>b t. xs = b @ t \<and> NL \<notin> set b \<and> match_here r t \<noteq> None" by blast
      with Cons.IH have "match_here (DotStar # r) xs \<noteq> None" by blast
      with y show ?thesis unfolding match_DotStar_step by blast
    qed
  qed
qed


lemma scan_iff: "scan r s i \<noteq> None \<longleftrightarrow> (\<exists>a t. s = a @ t \<and> match_here r t \<noteq> None)"
proof
  assume "scan r s i \<noteq> None"
  then have "\<exists>k\<le>length s. match_here r (drop k s) \<noteq> None"
    by (simp add: scan_None_iff)
  then obtain k where k: "match_here r (drop k s) \<noteq> None"
    by blast
  show "\<exists>a t. s = a @ t \<and> match_here r t \<noteq> None"
  proof (intro exI conjI)
    show "s = take k s @ drop k s" by simp
    show "match_here r (drop k s) \<noteq> None" by (rule k)
  qed
next
  assume "\<exists>a t. s = a @ t \<and> match_here r t \<noteq> None"
  then obtain a t where s: "s = a @ t" and t: "match_here r t \<noteq> None"
    by blast
  have "length a \<le> length s" "match_here r (drop (length a) s) \<noteq> None"
    using s t by simp_all
  then have "\<exists>k\<le>length s. match_here r (drop k s) \<noteq> None"
    by blast
  then show "scan r s i \<noteq> None"
    by (simp add: scan_None_iff)
qed


lemma search_public_static_String:
  "re_search public_static_String l 0 \<noteq> None \<longleftrightarrow> occurs_in_order l"
proof -
  have 1: "match_here (lit ''String'') t \<noteq> None \<longleftrightarrow> (\<exists>d. t = ''String'' @ d)" for t
    using match_lit_iff[of "''String''" "[]" t] by simp
  have 2: "match_here (DotStar # lit ''String'') t \<noteq> None
      \<longleftrightarrow> (\<exists>c d. t = c @ ''String'' @ d \<and> NL \<notin> set c)" for t
    unfolding match_DotStar_iff 1 by blast
  have 3: "match_here (lit ''static'' @ DotStar # lit ''String'') t \<noteq> None
      \<longleftrightarrow> (\<exists>c d. t = ''static'' @ c @ ''String'' @ d \<and> NL \<notin> set c)" for t
    unfolding match_lit_iff 2 by blast
  have 4: "match_here (DotStar # lit ''static'' @ DotStar # lit ''String'') t \<noteq> None
      \<longleftrightarrow> (\<exists>b c d. t = b @ ''static'' @ c @ ''String'' @ d \<and> NL \<notin> set b \<and> NL \<notin> set c)" for t
    unfolding match_DotStar_iff 3 by blast
  have 5: "match_here (lit ''public'' @ DotStar # lit ''static'' @ DotStar # lit ''String'') t \<noteq> None
      \<longleftrightarrow> (\<exists>b c d. t = ''public'' @ b @ ''static'' @ c @ ''String'' @ d
             \<and> NL \<notin> set b \<and> NL \<notin> set c)" for t
    unfolding match_lit_iff 4 by blast
  have "scan (lit ''public'' @ DotStar # lit ''static'' @ DotStar # lit ''String'') l 0 \<noteq> None
      \<longleftrightarrow> occurs_in_order l"
    unfolding scan_iff 5 occurs_in_order_def by blast
  then show ?thesis
    by (simp add: public_static_String_def)
qed

lemma concat_file_lines_aux: "concat (file_lines_aux cur s) = cur @ s"
  by (induction cur s rule: file_lines_aux.induct) (auto split: list.splits)

text \<open>
  C7, amended: \<^verbatim>\<open>NLS_variable_lines\<close> yields, in file line order, exactly the raw lines in which
  \<^verbatim>\<open>public\<close>, \<^verbatim>\<open>static\<close> and \<^verbatim>\<open>String\<close> occur as substrings in this order (whole words or
  not) and that hold no \<^verbatim>\<open>(\<close>; the lines of a file are consecutive pieces of its content.
\<close>

theorem NLS_variable_lines_substrings:
  "NLS_variable_lines_content content
     = filter (\<lambda>l. occurs_in_order l \<and> CHR ''('' \<notin> set l) (file_lines content)
   \<and> concat (file_lines content) = content"
  unfolding NLS_variable_lines_content_def search_public_static_String
  by (simp add: file_lines_def concat_file_lines_aux)

text \<open>A declaration whose type only begins with \<^verbatim>\<open>String\<close>.\<close>

definition StringBuilder_line :: string where
  "StringBuilder_line = ''  public static StringBuilder FOO_buffer;'' @ [NL]"

text \<open>
  C7 as stated fails: the line \<^verbatim>\<open>public static StringBuilder FOO_buffer;\<close> is selected, though
  \<^verbatim>\<open>String\<close> is not one of its tokens.
\<close>

theorem NLS_variable_lines_not_whole_words:
  "NLS_variable_lines_content StringBuilder_line = [StringBuilder_line]
   \<and> split_ws StringBuilder_line = [''public'', ''static'', ''StringBuilder'', ''FOO_buffer;'']
   \<and> \<not> whole_words_in_order StringBuilder_line
   \<and> filter (\<lambda>l. whole_words_in_order l \<and> CHR ''('' \<notin> set l) (file_lines StringBuilder_line) = []"
  by code_simp

section \<open>Properties of the message-holder transformer and of the main pipeline\<close>







lemma rewrite_no_static_block:
  assumes f: "files w filepath = Some content"
    and s: "\<not> contains (concat (filter (\<lambda>i. i \<notin> set variablelines) (file_lines content))) ''static {''"
  shows "rewrite_NLS_Messages_file w filepath variablelines =
           (w\<lparr>files := (files w)(filepath \<mapsto>
                  concat (filter (\<lambda>i. i \<notin> set variablelines) (file_lines content))),
              log := log w @ [LogWarning (''No static block found in file '' @ filepath)]\<rparr>,
            Inr False)"
proof -
  let ?c = "concat (filter (\<lambda>i. i \<notin> set variablelines) (file_lines content))"
  have r: "remove_lines_from_file (files w) filepath variablelines
      = Inr ((files w)(filepath \<mapsto> ?c), list_ex (\<lambda>i. i \<in> set variablelines) (file_lines content))"
    using f by (simp add: remove_lines_from_file_def)
  from s have "str_find ?c ''static {'' = None"
    by (simp add: contains_def)
  then have "replace_static_constructor_with_resolver ?c = Inl ValueError"
    by (simp add: replace_static_constructor_with_resolver_def)
  with r show ?thesis
    by (simp add: rewrite_NLS_Messages_file_def)
qed






text \<open>Holder files for the examples: one without a static block, one without a package line,
  one complete, and one whose only declaration has the type \<^verbatim>\<open>StringBuilder\<close>.\<close>

definition holder_no_static :: string where
  "holder_no_static =
     ''package foo;'' @ [NL, NL] @ ''public class Bah extends NLS {'' @ [NL]
     @ ''  public static String FOO_a;'' @ [NL] @ ''}'' @ [NL]"




definition world_no_static :: world where
  "world_no_static = \<lparr>files = [''foo/Bah.java'' \<mapsto> holder_no_static], log = []\<rparr>"



lemma holder_no_static_removed:
  "concat (filter (\<lambda>i. i \<notin> set [''  public static String FOO_a;'' @ [NL]])
             (file_lines holder_no_static))
     = ''package foo;'' @ [NL, NL] @ ''public class Bah extends NLS {'' @ [NL] @ ''}'' @ [NL]"
  by code_simp

lemma holder_no_static_lines:
  "NLS_variable_lines_content holder_no_static = [''  public static String FOO_a;'' @ [NL]]"
  by code_simp

lemma holder_no_static_contains:
  "\<not> contains (''package foo;'' @ [NL, NL] @ ''public class Bah extends NLS {'' @ [NL] @ ''}''
                 @ [NL]) ''static {''"
  by code_simp

text \<open>
  C10: when the content of a holder file, after the declaration lines are removed, has no
  \<^verbatim>\<open>static {\<close>, \<^verbatim>\<open>rewrite_NLS_Messages_file\<close> logs the warning and returns \<^verbatim>\<open>False\<close>, whatever
  flag the removal returned; the file holds the content without the declaration lines and
  nothing else has been applied to it.
\<close>

theorem rewrite_NLS_Messages_file_no_static_block:
  assumes "files w filepath = Some content"
    and "\<not> contains (concat (filter (\<lambda>i. i \<notin> set variablelines) (file_lines content)))
             ''static {''"
  shows "rewrite_NLS_Messages_file w filepath variablelines =
           (w\<lparr>files := (files w)(filepath \<mapsto>
                  concat (filter (\<lambda>i. i \<notin> set variablelines) (file_lines content))),
              log := log w @ [LogWarning (''No static block found in file '' @ filepath)]\<rparr>,
            Inr False)
         \<and> remove_lines_from_file (files w) filepath variablelines =
             Inr ((files w)(filepath \<mapsto>
                    concat (filter (\<lambda>i. i \<notin> set variablelines) (file_lines content))),
                  list_ex (\<lambda>i. i \<in> set variablelines) (file_lines content))"
  using assms rewrite_no_static_block[of w filepath content variablelines]
  by (simp add: remove_lines_from_file_def)

theorem rewrite_NLS_Messages_file_no_static_block_witness:
  "files world_no_static ''foo/Bah.java'' = Some holder_no_static
   \<and> rewrite_NLS_Messages_file world_no_static ''foo/Bah.java''
         (NLS_variable_lines_content holder_no_static)
       = (\<lparr>files = [''foo/Bah.java'' \<mapsto>
                       ''package foo;'' @ [NL, NL] @ ''public class Bah extends NLS {'' @ [NL]
                       @ ''}'' @ [NL]],
           log = [LogWarning ''No static block found in file foo/Bah.java'']\<rparr>,
          Inr False)
   \<and> remove_lines_from_file (files world_no_static) ''foo/Bah.java''
         (NLS_variable_lines_content holder_no_static)
       = Inr ([''foo/Bah.java'' \<mapsto>
                ''package foo;'' @ [NL, NL] @ ''public class Bah extends NLS {'' @ [NL]
                @ ''}'' @ [NL]],
              True)"
proof -
  have f: "files world_no_static ''foo/Bah.java'' = Some holder_no_static"
    by (simp add: world_no_static_def)
  have c: "\<not> contains (concat (filter (\<lambda>i. i \<notin> set (NLS_variable_lines_content holder_no_static))
                                  (file_lines holder_no_static))) ''static {''"
    unfolding holder_no_static_lines holder_no_static_removed
    by (rule holder_no_static_contains)
  have t: "list_ex (\<lambda>i. i \<in> set [''  public static String FOO_a;'' @ [NL]])
             (file_lines holder_no_static)"
    by code_simp
  from rewrite_NLS_Messages_file_no_static_block[OF f c] f t show ?thesis
    unfolding holder_no_static_lines holder_no_static_removed
    by (simp add: world_no_static_def)
qed




section \<open>Properties of the settings generator\<close>

text \<open>
  A migrated accessor class: package \<^verbatim>\<open>net.disy.x\<close>, class \<^verbatim>\<open>Messages\<close>, bundle
  \<^verbatim>\<open>net.disy.x.messages\<close>.
\<close>

definition accessor_file :: string where
  "accessor_file =
     ''package net.disy.x;'' @ [NL, NL]
     @ ''import net.disy.commons.core.locale.IMessageResolver;'' @ [NL]
     @ ''import net.disy.commons.core.locale.ResourceBundleMessageResolver;'' @ [NL, NL]
     @ ''public class Messages {'' @ [NL]
     @ ''  private static final String BUNDLE_NAME = '' @ [DQ] @ ''net.disy.x.messages'' @ [DQ]
     @ ''; //$NON-NLS-1$'' @ [NL, NL]
     @ ''  private static final IMessageResolver MSG = ''
     @ ''new ResourceBundleMessageResolver(BUNDLE_NAME);'' @ [NL, NL]
     @ ''  public static String getString(String key) {'' @ [NL]
     @ ''    return MSG.getString(key);'' @ [NL] @ ''  }'' @ [NL] @ ''}'' @ [NL]"

text \<open>The number of positions at which \<open>sub\<close> occurs.\<close>

fun count_occurrences :: "string \<Rightarrow> string \<Rightarrow> nat" where
  "count_occurrences [] sub = 0"
| "count_occurrences (c # cs) sub =
     (if startswith (c # cs) sub then 1 else 0) + count_occurrences cs sub"

text \<open>
  C8 as stated fails: the generated content does not hold the tag with a plain \<^verbatim>\<open>=\<close>; the
  template writes every \<^verbatim>\<open>=\<close> of the XML with a backslash before it.
\<close>

theorem settings_tag_not_unescaped:
  "extract_accessor_and_properties [''x/Messages.java'' \<mapsto> accessor_file] ''x/Messages.java''
     = Inr (''net.disy.x.Messages'', ''net.disy.x.messages'')
   \<and> count_occurrences
         (generate_settings_data [(''net.disy.x.Messages'', ''net.disy.x.messages'')])
         (''<resourceBundleReference resourceBundleName='' @ [DQ] @ ''net.disy.x.messages''
          @ [DQ] @ ''>'')
       = 0
   \<and> \<not> contains
         (generate_settings_data [(''net.disy.x.Messages'', ''net.disy.x.messages'')])
         (''<resourceBundleReference resourceBundleName='' @ [DQ] @ ''net.disy.x.messages''
          @ [DQ] @ ''>'')"
  by code_simp

text \<open>
  C8, amended: for that accessor file the generated content holds exactly one
  \<^verbatim>\<open>resourceBundleReference\<close> block; its opening tag names the bundle
  \<^verbatim>\<open>net.disy.x.messages\<close>, the \<^verbatim>\<open>=\<close> written with a backslash before it, and is followed by
  the accessor \<^verbatim>\<open>net.disy.x.Messages\<close>.
\<close>

theorem settings_one_bundle_reference:
  "extract_accessor_and_properties [''x/Messages.java'' \<mapsto> accessor_file] ''x/Messages.java''
     = Inr (''net.disy.x.Messages'', ''net.disy.x.messages'')
   \<and> generate_settings_data [(''net.disy.x.Messages'', ''net.disy.x.messages'')]
       = ''de.guhsoft.jinto.core.accessorConfiguration=<?xml version'' @ [BSL] @ ''='' @ [DQ]
         @ ''1.0'' @ [DQ] @ '' encoding'' @ [BSL] @ ''='' @ [DQ] @ ''UTF-8'' @ [DQ] @ ''?>''
         @ [BSL] @ ''n<root>'' @ [BSL] @ ''n''
         @ process_bundle_template ''net.disy.x.Messages'' ''net.disy.x.messages''
         @ [BSL] @ ''n</root>'' @ [NL] @ ''eclipse.preferences.version=1'' @ [NL]
   \<and> count_occurrences
         (generate_settings_data [(''net.disy.x.Messages'', ''net.disy.x.messages'')])
         (''<resourceBundleReference resourceBundleName'' @ [BSL] @ ''='' @ [DQ]
          @ ''net.disy.x.messages'' @ [DQ] @ ''>'' @ [BSL] @ ''n<accessor typeName'' @ [BSL]
          @ ''='' @ [DQ] @ ''net.disy.x.Messages'' @ [DQ] @ ''>'')
       = 1
   \<and> count_occurrences
         (generate_settings_data [(''net.disy.x.Messages'', ''net.disy.x.messages'')])
         ''<resourceBundleReference''
       = 1
   \<and> count_occurrences
         (generate_settings_data [(''net.disy.x.Messages'', ''net.disy.x.messages'')])
         ''</resourceBundleReference>''
       = 1"
  by code_simp

end
